theory Spec2Isabelle
  imports Complex_Main "HOL-Library.Word" "HOL-Library.Sublist"
begin

section \<open>Strings of the host language\<close>

text \<open>
  A JavaScript string is a sequence of 16-bit code units. Literals of the source are
  written with \<open>js\<close>, which maps each (ASCII) character to its code unit.
\<close>

type_synonym jschar = "16 word"
type_synonym jsstring = "jschar list"

definition js :: "string \<Rightarrow> jsstring" where
  "js s = map of_char s"

text \<open>
  \<open>String.prototype.trim\<close> strips, at both ends, the code units that ECMAScript calls
  WhiteSpace (TAB, VT, FF, SP, NBSP, ZWNBSP and the Unicode space separators) or
  LineTerminator (LF, CR, LS, PS).
\<close>

definition is_ws :: "jschar \<Rightarrow> bool" where
  "is_ws c \<longleftrightarrow>
     c = 0x0009 \<or> c = 0x000A \<or> c = 0x000B \<or> c = 0x000C \<or> c = 0x000D \<or> c = 0x0020 \<or>
     c = 0x00A0 \<or> c = 0x1680 \<or> (0x2000 \<le> c \<and> c \<le> 0x200A) \<or> c = 0x2028 \<or>
     c = 0x2029 \<or> c = 0x202F \<or> c = 0x205F \<or> c = 0x3000 \<or> c = 0xFEFF"

definition trim :: "jsstring \<Rightarrow> jsstring" where
  "trim s = rev (dropWhile is_ws (rev (dropWhile is_ws s)))"

text \<open>A title is blank when it is empty or consists of white space only.\<close>

definition blank :: "jsstring \<Rightarrow> bool" where
  "blank s \<longleftrightarrow> list_all is_ws s"

section \<open>The data model of \<open>App.tsx\<close>\<close>

text \<open>
  \<open>type Todo = { id: number; title: string; completed: boolean }\<close>. The field \<open>id\<close> is
  an integer (it is produced by \<open>Date.now()\<close>); it is called \<open>id_t\<close> here because \<open>id\<close> is
  the identity function of HOL.
\<close>

record todo =
  id_t :: int
  title :: jsstring
  completed :: bool

text \<open>\<open>type Filter = 'All' | 'Active' | 'Completed'\<close> (\<open>All\<close> is a HOL constant).\<close>

datatype Filter = All_f | Active | Completed

text \<open>
  The state of the component \<open>TodoApp\<close>: the four \<open>useState\<close> cells and the value of
  the DOM input behind \<open>newTodoRef\<close> (\<open>None\<close> while the ref is not attached).
\<close>

record app =
  todos :: "todo list"
  filter_s :: Filter
  editingId :: "int option"
  editValue :: jsstring
  newTodo :: "jsstring option"

section \<open>JSON texts\<close>

text \<open>
  \<open>loadTodos\<close> and \<open>saveTodos\<close> go through \<open>JSON.parse\<close> and \<open>JSON.stringify\<close> of the
  host. Both are modelled here after ECMA-262 and ECMA-404, on code units.

  A parsed value keeps the members of an object in the order of the text; a number is the
  exact value of its decimal literal, which is the value JavaScript computes for every
  integer of magnitude below \<open>2\<^sup>5\<^sup>3\<close>.
\<close>

datatype json = JNull | JBool bool | JNum rat | JStr jsstring | JArr "json list"
  | JObj "(jsstring \<times> json) list"

subsection \<open>Tokens\<close>

datatype token = LBracket | RBracket | LBrace | RBrace | Comma | Colon
  | TNull | TTrue | TFalse | TNum rat | TStr jsstring

definition is_digit :: "jschar \<Rightarrow> bool" where
  "is_digit c \<longleftrightarrow> 0x30 \<le> c \<and> c \<le> 0x39"

definition digit_val :: "jschar \<Rightarrow> nat" where
  "digit_val c = unat c - 48"

definition dec_val :: "jschar list \<Rightarrow> nat" where
  "dec_val ds = foldl (\<lambda>a c. 10 * a + digit_val c) 0 ds"

definition hex_val :: "jschar \<Rightarrow> nat option" where
  "hex_val c =
     (if is_digit c then Some (unat c - 48)
      else if 0x61 \<le> c \<and> c \<le> 0x66 then Some (unat c - 87)
      else if 0x41 \<le> c \<and> c \<le> 0x46 then Some (unat c - 55)
      else None)"

text \<open>The character after a backslash, other than \<open>u\<close>, and the code unit it stands for.\<close>

definition unescape :: "jschar \<Rightarrow> jschar option" where
  "unescape e =
     (if e = 0x22 \<or> e = 0x5C \<or> e = 0x2F then Some e
      else if e = 0x62 then Some 0x08
      else if e = 0x66 then Some 0x0C
      else if e = 0x6E then Some 0x0A
      else if e = 0x72 then Some 0x0D
      else if e = 0x74 then Some 0x09
      else None)"

definition hex4 :: "nat \<Rightarrow> nat \<Rightarrow> nat \<Rightarrow> nat \<Rightarrow> jschar" where
  "hex4 a b c d = of_nat (((a * 16 + b) * 16 + c) * 16 + d)"

text \<open>
  \<open>scan_string\<close> reads the characters of a string after its opening quote, up to the
  closing quote: a backslash starts an escape, a control character below \<open>U+0020\<close> is an
  error, every other code unit stands for itself. The result is the string and the input
  behind the closing quote; \<open>None\<close> is a syntax error.
\<close>

fun scan_string :: "jschar list \<Rightarrow> (jsstring \<times> jschar list) option" where
  "scan_string [] = None"
| "scan_string (c # cs) =
     (if c = 0x22 then Some ([], cs)
      else if c = 0x5C then
        (case cs of
           [] \<Rightarrow> None
         | e # cs1 \<Rightarrow>
             if e = 0x75 then
               (case cs1 of
                  h1 # h2 # h3 # h4 # cs2 \<Rightarrow>
                    (case (hex_val h1, hex_val h2, hex_val h3, hex_val h4) of
                       (Some a, Some b, Some c', Some d) \<Rightarrow>
                         map_option (\<lambda>(s, r). (hex4 a b c' d # s, r))
                           (scan_string cs2)
                     | _ \<Rightarrow> None)
                | _ \<Rightarrow> None)
             else
               (case unescape e of
                  None \<Rightarrow> None
                | Some u \<Rightarrow> map_option (\<lambda>(s, r). (u # s, r)) (scan_string cs1)))
      else if c < 0x20 then None
      else map_option (\<lambda>(s, r). (c # s, r)) (scan_string cs))"

lemma scan_string_length: "scan_string cs = Some (s, r) \<Longrightarrow> length r < length cs"
proof (induction cs arbitrary: s r rule: scan_string.induct)
  case 1
  then show ?case by simp
next
  case (2 c cs)
  show ?case
    using "2.prems" "2.IH"
    by (fastforce simp: less_Suc_eq split: if_splits list.splits option.splits prod.splits)
qed

text \<open>
  A number is an optional minus sign, an integer part without a superfluous leading zero,
  an optional fraction and an optional exponent.
\<close>

definition scan_frac :: "jschar list \<Rightarrow> (jschar list \<times> jschar list) option" where
  "scan_frac cs =
     (case cs of
        [] \<Rightarrow> Some ([], cs)
      | c # r \<Rightarrow>
          if c = 0x2E then
            (if takeWhile is_digit r = [] then None
             else Some (takeWhile is_digit r, dropWhile is_digit r))
          else Some ([], cs))"

definition scan_sign :: "jschar list \<Rightarrow> bool \<times> jschar list" where
  "scan_sign cs =
     (case cs of
        [] \<Rightarrow> (False, cs)
      | c # r \<Rightarrow> if c = 0x2D then (True, r) else if c = 0x2B then (False, r) else (False, cs))"

definition scan_exp :: "jschar list \<Rightarrow> (int \<times> jschar list) option" where
  "scan_exp cs =
     (case cs of
        [] \<Rightarrow> Some (0, cs)
      | c # r \<Rightarrow>
          if c = 0x65 \<or> c = 0x45 then
            (case scan_sign r of
               (neg, r1) \<Rightarrow>
                 if takeWhile is_digit r1 = [] then None
                 else Some ((if neg then - int (dec_val (takeWhile is_digit r1))
                             else int (dec_val (takeWhile is_digit r1))),
                            dropWhile is_digit r1))
          else Some (0, cs))"

definition number_value :: "bool \<Rightarrow> jschar list \<Rightarrow> jschar list \<Rightarrow> int \<Rightarrow> rat" where
  "number_value neg ds fs e =
     (let m = of_nat (dec_val ds) + of_nat (dec_val fs) / 10 ^ length fs;
          x = (if 0 \<le> e then m * 10 ^ nat e else m / 10 ^ nat (- e))
      in if neg then - x else x)"

definition scan_number :: "jschar list \<Rightarrow> (rat \<times> jschar list) option" where
  "scan_number cs =
     (let neg = (cs \<noteq> [] \<and> hd cs = 0x2D);
          cs1 = (if neg then tl cs else cs);
          ds = takeWhile is_digit cs1
      in if ds = [] \<or> (hd ds = 0x30 \<and> tl ds \<noteq> []) then None
         else
           (case scan_frac (dropWhile is_digit cs1) of
              None \<Rightarrow> None
            | Some (fs, cs3) \<Rightarrow>
                (case scan_exp cs3 of
                   None \<Rightarrow> None
                 | Some (e, cs4) \<Rightarrow> Some (number_value neg ds fs e, cs4))))"

lemma scan_frac_length: "scan_frac cs = Some (fs, r) \<Longrightarrow> length r \<le> length cs"
  by (auto simp: scan_frac_def le_SucI length_dropWhile_le split: list.splits if_splits)

lemma scan_sign_length: "scan_sign cs = (b, r) \<Longrightarrow> length r \<le> length cs"
  by (auto simp: scan_sign_def split: list.splits if_splits)

lemma scan_exp_length: "scan_exp cs = Some (e, r) \<Longrightarrow> length r \<le> length cs"
proof (cases cs)
  case Nil
  then show "scan_exp cs = Some (e, r) \<Longrightarrow> length r \<le> length cs"
    by (simp add: scan_exp_def)
next
  case (Cons c cs')
  assume a: "scan_exp cs = Some (e, r)"
  show "length r \<le> length cs"
  proof (cases "c = 0x65 \<or> c = 0x45")
    case False
    with a Cons show ?thesis by (auto simp: scan_exp_def)
  next
    case True
    obtain b r1 where s: "scan_sign cs' = (b, r1)" by (cases "scan_sign cs'")
    from a Cons True s have "r = dropWhile is_digit r1"
      by (auto simp: scan_exp_def split: if_splits)
    moreover have "length (dropWhile is_digit r1) \<le> length r1" by (rule length_dropWhile_le)
    moreover have "length r1 \<le> length cs'" using s by (rule scan_sign_length)
    ultimately show ?thesis using Cons by simp
  qed
qed

lemma dropWhile_length_less: "takeWhile P xs \<noteq> [] \<Longrightarrow> length (dropWhile P xs) < length xs"
  by (cases xs) (auto simp: less_Suc_eq_le length_dropWhile_le split: if_splits)

lemma scan_number_length:
  assumes "scan_number cs = Some (x, r)"
  shows "length r < length cs"
proof -
  define cs1 where "cs1 = (if cs \<noteq> [] \<and> hd cs = 0x2D then tl cs else cs)"
  have l1: "length cs1 \<le> length cs" by (simp add: cs1_def)
  from assms have nz: "takeWhile is_digit cs1 \<noteq> []"
    by (auto simp: scan_number_def Let_def cs1_def split: if_splits)
  from assms obtain fs cs3 e where
    f: "scan_frac (dropWhile is_digit cs1) = Some (fs, cs3)" and x: "scan_exp cs3 = Some (e, r)"
    by (auto simp: scan_number_def Let_def cs1_def split: if_splits option.splits)
  have "length r \<le> length cs3" using x by (rule scan_exp_length)
  also have "\<dots> \<le> length (dropWhile is_digit cs1)" using f by (rule scan_frac_length)
  also have "\<dots> < length cs1" using nz by (rule dropWhile_length_less)
  finally show ?thesis using l1 by simp
qed

text \<open>
  The tokens of a text. White space between tokens is TAB, LF, CR or SP; any other
  character that starts no token is a syntax error.
\<close>

function tokenize :: "jschar list \<Rightarrow> token list option" where
  "tokenize [] = Some []"
| "tokenize (c # cs) =
     (if c = 0x20 \<or> c = 0x09 \<or> c = 0x0A \<or> c = 0x0D then tokenize cs
      else if c = 0x5B then map_option ((#) LBracket) (tokenize cs)
      else if c = 0x5D then map_option ((#) RBracket) (tokenize cs)
      else if c = 0x7B then map_option ((#) LBrace) (tokenize cs)
      else if c = 0x7D then map_option ((#) RBrace) (tokenize cs)
      else if c = 0x2C then map_option ((#) Comma) (tokenize cs)
      else if c = 0x3A then map_option ((#) Colon) (tokenize cs)
      else if c = 0x22 then
        (case scan_string cs of
           None \<Rightarrow> None
         | Some (s, r) \<Rightarrow> map_option ((#) (TStr s)) (tokenize r))
      else if c = 0x2D \<or> is_digit c then
        (case scan_number (c # cs) of
           None \<Rightarrow> None
         | Some (x, r) \<Rightarrow> map_option ((#) (TNum x)) (tokenize r))
      else if take 4 (c # cs) = js ''null'' then map_option ((#) TNull) (tokenize (drop 3 cs))
      else if take 4 (c # cs) = js ''true'' then map_option ((#) TTrue) (tokenize (drop 3 cs))
      else if take 5 (c # cs) = js ''false'' then map_option ((#) TFalse) (tokenize (drop 4 cs))
      else None)"
  by pat_completeness auto
termination
proof (relation "measure length")
  show "wf (measure length)" by simp
qed (auto dest: scan_string_length scan_number_length)

subsection \<open>The grammar\<close>

text \<open>
  The grammar of JSON values is run as a pushdown automaton over the tokens. A frame is an
  array or an object under construction (elements and members in reverse order; the frame
  of an object also holds the key that waits for its value). The mode says which token may
  come next.
\<close>

datatype frame = FArr "json list" | FObj "(jsstring \<times> json) list" jsstring

datatype mode = MValue | MArrFirst | MKeyFirst | MKey | MColon | MAfter | MDone json

fun deliver :: "json \<Rightarrow> frame list \<Rightarrow> mode \<times> frame list" where
  "deliver v [] = (MDone v, [])"
| "deliver v (FArr vs # st) = (MAfter, FArr (v # vs) # st)"
| "deliver v (FObj ms k # st) = (MAfter, FObj ((k, v) # ms) k # st)"

fun step_value :: "token \<Rightarrow> frame list \<Rightarrow> (mode \<times> frame list) option" where
  "step_value TNull st = Some (deliver JNull st)"
| "step_value TTrue st = Some (deliver (JBool True) st)"
| "step_value TFalse st = Some (deliver (JBool False) st)"
| "step_value (TNum x) st = Some (deliver (JNum x) st)"
| "step_value (TStr s) st = Some (deliver (JStr s) st)"
| "step_value LBracket st = Some (MArrFirst, FArr [] # st)"
| "step_value LBrace st = Some (MKeyFirst, FObj [] [] # st)"
| "step_value _ st = None"

fun step_key :: "token \<Rightarrow> frame list \<Rightarrow> (mode \<times> frame list) option" where
  "step_key (TStr k) (FObj ms _ # st) = Some (MColon, FObj ms k # st)"
| "step_key _ _ = None"

fun step :: "token \<Rightarrow> mode \<times> frame list \<Rightarrow> (mode \<times> frame list) option" where
  "step t (MValue, st) = step_value t st"
| "step t (MArrFirst, st) =
     (if t = RBracket then
        (case st of FArr vs # st' \<Rightarrow> Some (deliver (JArr []) st') | _ \<Rightarrow> None)
      else step_value t st)"
| "step t (MKeyFirst, st) =
     (if t = RBrace then
        (case st of FObj ms k # st' \<Rightarrow> Some (deliver (JObj []) st') | _ \<Rightarrow> None)
      else step_key t st)"
| "step t (MKey, st) = step_key t st"
| "step t (MColon, st) = (if t = Colon then Some (MValue, st) else None)"
| "step t (MAfter, st) =
     (case st of
        [] \<Rightarrow> None
      | FArr vs # st' \<Rightarrow>
          if t = Comma then Some (MValue, st)
          else if t = RBracket then Some (deliver (JArr (rev vs)) st')
          else None
      | FObj ms k # st' \<Rightarrow>
          if t = Comma then Some (MKey, st)
          else if t = RBrace then Some (deliver (JObj (rev ms)) st')
          else None)"
| "step t (MDone v, st) = None"

fun run :: "token list \<Rightarrow> mode \<times> frame list \<Rightarrow> (mode \<times> frame list) option" where
  "run [] s = Some s"
| "run (t # ts) s = (case step t s of None \<Rightarrow> None | Some s' \<Rightarrow> run ts s')"

text \<open>
  \<open>JSON.parse\<close>: \<open>None\<close> stands for the \<open>SyntaxError\<close> it throws. The text is accepted when
  the automaton has seen exactly one complete value.
\<close>

definition JSON_parse :: "jsstring \<Rightarrow> json option" where
  "JSON_parse text =
     (case tokenize text of
        None \<Rightarrow> None
      | Some ts \<Rightarrow>
          (case run ts (MValue, []) of
             Some (MDone v, st) \<Rightarrow> Some v
           | _ \<Rightarrow> None))"

subsection \<open>Serialization\<close>

text \<open>
  \<open>Number::toString\<close> on an integer of magnitude below \<open>10\<^sup>2\<^sup>1\<close> prints its decimal
  digits, after a minus sign if it is negative.
\<close>

definition digit_char :: "nat \<Rightarrow> jschar" where
  "digit_char d = of_nat (48 + d)"

fun digits :: "nat \<Rightarrow> jschar list" where
  "digits n = (if n < 10 then [digit_char n] else digits (n div 10) @ [digit_char (n mod 10)])"

declare digits.simps [simp del]

definition number_to_string :: "int \<Rightarrow> jsstring" where
  "number_to_string n = (if n < 0 then 0x2D # digits (nat (- n)) else digits (nat n))"

text \<open>
  \<open>QuoteJSONString\<close>: the quote, the backslash and the control characters are escaped, a
  surrogate that is not part of a pair is written as a backslash, \<open>u\<close> and four lower-case hexadecimal
  digits, and every other code unit is copied.
\<close>

definition hex_char :: "nat \<Rightarrow> jschar" where
  "hex_char d = of_nat (if d < 10 then 48 + d else 87 + d)"

definition unicode_escape :: "jschar \<Rightarrow> jsstring" where
  "unicode_escape c =
     [0x5C, 0x75, hex_char (unat c div 4096 mod 16), hex_char (unat c div 256 mod 16),
      hex_char (unat c div 16 mod 16), hex_char (unat c mod 16)]"

definition is_lead :: "jschar \<Rightarrow> bool" where
  "is_lead c \<longleftrightarrow> 0xD800 \<le> c \<and> c \<le> 0xDBFF"

definition is_trail :: "jschar \<Rightarrow> bool" where
  "is_trail c \<longleftrightarrow> 0xDC00 \<le> c \<and> c \<le> 0xDFFF"

fun quote_body :: "jsstring \<Rightarrow> jsstring" where
  "quote_body [] = []"
| "quote_body (c # cs) =
     (if c = 0x08 then [0x5C, 0x62] @ quote_body cs
      else if c = 0x09 then [0x5C, 0x74] @ quote_body cs
      else if c = 0x0A then [0x5C, 0x6E] @ quote_body cs
      else if c = 0x0C then [0x5C, 0x66] @ quote_body cs
      else if c = 0x0D then [0x5C, 0x72] @ quote_body cs
      else if c = 0x22 then [0x5C, 0x22] @ quote_body cs
      else if c = 0x5C then [0x5C, 0x5C] @ quote_body cs
      else if c < 0x20 then unicode_escape c @ quote_body cs
      else if is_lead c then
        (case cs of
           [] \<Rightarrow> unicode_escape c
         | d # cs' \<Rightarrow>
             if is_trail d then c # d # quote_body cs'
             else unicode_escape c @ quote_body cs)
      else if is_trail c then unicode_escape c @ quote_body cs
      else c # quote_body cs)"

definition QuoteJSONString :: "jsstring \<Rightarrow> jsstring" where
  "QuoteJSONString s = 0x22 # quote_body s @ [0x22]"

text \<open>
  \<open>JSON.stringify\<close> on a value of type \<open>Todo[]\<close>, without indentation: the properties of a
  task are written in the order \<open>id\<close>, \<open>title\<close>, \<open>completed\<close>, in which the object
  literal of \<open>handleAddTodo\<close> creates them and which the spread copies of the other
  handlers keep.
\<close>

definition stringify_todo :: "todo \<Rightarrow> jsstring" where
  \<open>stringify_todo t =
     js ''{"id":'' @ number_to_string (id_t t) @
     js '',"title":'' @ QuoteJSONString (title t) @
     js '',"completed":'' @ (if completed t then js ''true'' else js ''false'') @
     js ''}''\<close>

fun stringify_elems :: "todo list \<Rightarrow> jsstring" where
  "stringify_elems [] = []"
| "stringify_elems [t] = stringify_todo t"
| "stringify_elems (t # ts) = stringify_todo t @ 0x2C # stringify_elems ts"

definition JSON_stringify :: "todo list \<Rightarrow> jsstring" where
  "JSON_stringify ts = 0x5B # stringify_elems ts @ [0x5D]"

text \<open>A task and a task list as the JavaScript values they are.\<close>

definition json_of_todo :: "todo \<Rightarrow> json" where
  "json_of_todo t =
     JObj [(js ''id'', JNum (of_int (id_t t))), (js ''title'', JStr (title t)),
           (js ''completed'', JBool (completed t))]"

definition json_of_todos :: "todo list \<Rightarrow> json" where
  "json_of_todos ts = JArr (map json_of_todo ts)"

text \<open>
  Reading a value at the type \<open>Todo[]\<close>: property access takes the last member of that
  name, as the object built by \<open>JSON.parse\<close> does. The result is \<open>None\<close> for a value that
  is not a list of tasks with an integer \<open>id\<close>, a string \<open>title\<close> and a boolean
  \<open>completed\<close>.
\<close>

definition get_prop :: "jsstring \<Rightarrow> json \<Rightarrow> json option" where
  "get_prop k v = (case v of JObj ms \<Rightarrow> map_of (rev ms) k | _ \<Rightarrow> None)"

definition as_todo :: "json \<Rightarrow> todo option" where
  "as_todo v =
     (case (get_prop (js ''id'') v, get_prop (js ''title'') v, get_prop (js ''completed'') v) of
        (Some (JNum x), Some (JStr s), Some (JBool b)) \<Rightarrow>
          if of_int \<lfloor>x\<rfloor> = x then Some \<lparr>id_t = \<lfloor>x\<rfloor>, title = s, completed = b\<rparr> else None
      | _ \<Rightarrow> None)"

definition as_todos :: "json \<Rightarrow> todo list option" where
  "as_todos v = (case v of JArr vs \<Rightarrow> those (map as_todo vs) | _ \<Rightarrow> None)"

text \<open>
  A task list is well formed when its ids are safe integers, the integers that a
  JavaScript number represents exactly.
\<close>

definition safe_integer :: "int \<Rightarrow> bool" where
  "safe_integer n \<longleftrightarrow> \<bar>n\<bar> \<le> 2 ^ 53 - 1"

definition well_formed :: "todo list \<Rightarrow> bool" where
  "well_formed L \<longleftrightarrow> list_all (\<lambda>t. safe_integer (id_t t)) L"

section \<open>Persistence\<close>

text \<open>
  \<open>localStorage\<close> is a map from keys to strings; \<open>getItem\<close> answers \<open>null\<close>, here
  \<open>None\<close>, for a key that is not there. The storage is taken to have room for every
  write.
\<close>

type_synonym storage = "jsstring \<rightharpoonup> jsstring"

definition LOCAL_STORAGE_KEY :: jsstring where
  "LOCAL_STORAGE_KEY = js ''react-todos''"

definition getItem :: "storage \<Rightarrow> jsstring \<Rightarrow> jsstring option" where
  "getItem sto k = sto k"

definition setItem :: "jsstring \<Rightarrow> jsstring \<Rightarrow> storage \<Rightarrow> storage" where
  "setItem k v sto = sto(k \<mapsto> v)"

text \<open>
  \<open>loadTodos\<close>: \<open>getItem(...) || '[]'\<close> replaces \<open>null\<close> and the empty string by \<open>'[]'\<close>;
  the \<open>catch\<close> turns a syntax error into the empty list. What \<open>JSON.parse\<close> returns is
  returned as it is.
\<close>

definition loadTodos :: "storage \<Rightarrow> json" where
  "loadTodos sto =
     (let text = (case getItem sto LOCAL_STORAGE_KEY of
                    None \<Rightarrow> js ''[]''
                  | Some s \<Rightarrow> if s = [] then js ''[]'' else s)
      in case JSON_parse text of None \<Rightarrow> JArr [] | Some v \<Rightarrow> v)"

definition saveTodos :: "todo list \<Rightarrow> storage \<Rightarrow> storage" where
  "saveTodos ts sto = setItem LOCAL_STORAGE_KEY (JSON_stringify ts) sto"
section \<open>The derived view\<close>

definition filteredTodos :: "app \<Rightarrow> todo list" where
  "filteredTodos st =
     filter (\<lambda>todo. if filter_s st = All_f then True
                     else if filter_s st = Active then \<not> completed todo
                     else completed todo) (todos st)"

definition activeCount :: "app \<Rightarrow> nat" where
  "activeCount st = length (filter (\<lambda>t. \<not> completed t) (todos st))"

definition completedCount :: "app \<Rightarrow> nat" where
  "completedCount st = length (filter (\<lambda>t. completed t) (todos st))"

text \<open>
  The \<open>toggle-all\<close> checkbox sits inside \<open>{todos.length > 0 && (...)}\<close>: it is rendered
  only for a non-empty list, and then with \<open>checked={activeCount === 0}\<close>. The result is
  \<open>None\<close> when the control is not rendered.
\<close>

definition toggle_all_checked :: "app \<Rightarrow> bool option" where
  "toggle_all_checked st =
     (if length (todos st) > 0 then Some (activeCount st = 0) else None)"

section \<open>The event handlers\<close>

text \<open>
  Each handler is a function from the state in which it is called to the state after the
  updates it requests. \<open>Date.now()\<close> is an input of \<open>handleAddTodo\<close>.
\<close>

definition handleAddTodo :: "int \<Rightarrow> app \<Rightarrow> app" where
  "handleAddTodo now st =
     (let value = (case newTodo st of None \<Rightarrow> [] | Some v \<Rightarrow> trim v) in
      if value \<noteq> [] then
        st\<lparr>todos := todos st @ [\<lparr>id_t = now, title = value, completed = False\<rparr>],
           newTodo := (case newTodo st of None \<Rightarrow> None | Some v \<Rightarrow> Some [])\<rparr>
      else st)"

definition handleToggle :: "int \<Rightarrow> app \<Rightarrow> app" where
  "handleToggle i st =
     st\<lparr>todos := map (\<lambda>t. if id_t t = i then t\<lparr>completed := \<not> completed t\<rparr> else t) (todos st)\<rparr>"

definition handleDelete :: "int \<Rightarrow> app \<Rightarrow> app" where
  "handleDelete i st = st\<lparr>todos := filter (\<lambda>t. id_t t \<noteq> i) (todos st)\<rparr>"

definition handleEditStart :: "todo \<Rightarrow> app \<Rightarrow> app" where
  "handleEditStart t st = st\<lparr>editingId := Some (id_t t), editValue := title t\<rparr>"

definition handleEditChange :: "jsstring \<Rightarrow> app \<Rightarrow> app" where
  "handleEditChange v st = st\<lparr>editValue := v\<rparr>"

definition handleEditSubmit :: "int \<Rightarrow> app \<Rightarrow> app" where
  "handleEditSubmit i st =
     (let val = trim (editValue st);
          st1 = (if val \<noteq> [] then
                   st\<lparr>todos := map (\<lambda>t. if id_t t = i then t\<lparr>title := val\<rparr> else t) (todos st)\<rparr>
                 else handleDelete i st)
      in st1\<lparr>editingId := None, editValue := []\<rparr>)"

definition handleEditKeyDown :: "jsstring \<Rightarrow> int \<Rightarrow> app \<Rightarrow> app" where
  "handleEditKeyDown key i st =
     (if key = js ''Enter'' then handleEditSubmit i st
      else if key = js ''Escape'' then st\<lparr>editingId := None, editValue := []\<rparr>
      else st)"

definition handleEditBlur :: "int \<Rightarrow> app \<Rightarrow> app" where
  "handleEditBlur i st = handleEditSubmit i st"

definition handleClearCompleted :: "app \<Rightarrow> app" where
  "handleClearCompleted st = st\<lparr>todos := filter (\<lambda>t. \<not> completed t) (todos st)\<rparr>"

definition handleMarkAll :: "bool \<Rightarrow> app \<Rightarrow> app" where
  "handleMarkAll checked st = st\<lparr>todos := map (\<lambda>t. t\<lparr>completed := checked\<rparr>) (todos st)\<rparr>"

definition setCurrentFilter :: "Filter \<Rightarrow> app \<Rightarrow> app" where
  "setCurrentFilter f st = st\<lparr>filter_s := f\<rparr>"

text \<open>
  The intent \<open>Add(title)\<close>: the user types \<open>txt\<close> into the new-task input and submits the
  form at time \<open>now\<close>.
\<close>

definition add :: "int \<times> jsstring \<Rightarrow> app \<Rightarrow> app" where
  "add a st = handleAddTodo (fst a) (st\<lparr>newTodo := Some (snd a)\<rparr>)"

text \<open>The task that a successful \<open>Add\<close> creates.\<close>

definition new_task :: "int \<times> jsstring \<Rightarrow> todo" where
  "new_task a = \<lparr>id_t = fst a, title = trim (snd a), completed = False\<rparr>"

text \<open>
  The intent \<open>CommitEdit(id, draftText)\<close>: the draft is typed into the edit field
  (\<open>handleEditChange\<close>) and submitted.
\<close>

definition commitEdit :: "int \<Rightarrow> jsstring \<Rightarrow> app \<Rightarrow> app" where
  "commitEdit i draft st = handleEditSubmit i (handleEditChange draft st)"

text \<open>The view predicate of a filter, as the specification words it.\<close>

definition passes :: "Filter \<Rightarrow> todo \<Rightarrow> bool" where
  "passes f t = (case f of All_f \<Rightarrow> True | Active \<Rightarrow> completed t = False
                 | Completed \<Rightarrow> completed t = True)"

section \<open>Sessions\<close>

text \<open>
  The component starts from \<open>useState(loadTodos())\<close>, with filter \<open>'All'\<close> and nothing
  being edited.
\<close>

definition initial_app :: "todo list \<Rightarrow> app" where
  "initial_app ts = \<lparr>todos = ts, filter_s = All_f, editingId = None, editValue = [],
                     newTodo = Some []\<rparr>"

text \<open>The state of a session that starts with no tasks.\<close>

definition empty_app :: app where
  "empty_app = initial_app []"

text \<open>
  The effect \<open>useEffect(() => saveTodos(todos), [todos])\<close> runs after the first render
  and after every render with a new \<open>todos\<close> array. \<open>dispatch\<close> saves after every event:
  an event that leaves \<open>todos\<close> alone then rewrites the string that is already stored.
\<close>

datatype event =
    Add int jsstring
  | Toggle int
  | Delete int
  | EditStart todo
  | EditChange jsstring
  | EditSubmit int
  | EditKeyDown jsstring int
  | EditBlur int
  | ClearCompleted
  | MarkAll bool
  | SetFilter Filter

fun handle :: "event \<Rightarrow> app \<Rightarrow> app" where
  "handle (Add now txt) st = add (now, txt) st"
| "handle (Toggle i) st = handleToggle i st"
| "handle (Delete i) st = handleDelete i st"
| "handle (EditStart t) st = handleEditStart t st"
| "handle (EditChange v) st = handleEditChange v st"
| "handle (EditSubmit i) st = handleEditSubmit i st"
| "handle (EditKeyDown key i) st = handleEditKeyDown key i st"
| "handle (EditBlur i) st = handleEditBlur i st"
| "handle ClearCompleted st = handleClearCompleted st"
| "handle (MarkAll b) st = handleMarkAll b st"
| "handle (SetFilter f) st = setCurrentFilter f st"

text \<open>
  How a session starts. The first render calls \<open>todos.filter\<close> on the loaded value, which
  throws a \<open>TypeError\<close> for every value that is not an array (\<open>Throws\<close>). The record
  \<open>todo\<close> describes the loaded objects exactly when the loaded value is a list of task
  objects in the layout that the store itself writes, with safe-integer ids: then the
  session starts in that list, and the effect of the first render writes it back
  (\<open>Started\<close>). Any other array holds objects that the record does not describe; the
  component's run on them is not modelled (\<open>Unmodelled\<close>), and nothing is stated about it.
\<close>

datatype start = Throws | Unmodelled | Started app storage

definition mount :: "storage \<Rightarrow> start" where
  "mount sto =
     (case loadTodos sto of
        JArr vs \<Rightarrow>
          (case as_todos (JArr vs) of
             None \<Rightarrow> Unmodelled
           | Some ts \<Rightarrow>
               if json_of_todos ts = JArr vs \<and> well_formed ts
               then Started (initial_app ts) (saveTodos ts sto)
               else Unmodelled)
      | _ \<Rightarrow> Throws)"

definition dispatch :: "event \<Rightarrow> app \<times> storage \<Rightarrow> app \<times> storage" where
  "dispatch ev w = (handle ev (fst w), saveTodos (todos (handle ev (fst w))) (snd w))"

text \<open>A session: the start, then the events of the user in their order.\<close>

definition session :: "storage \<Rightarrow> event list \<Rightarrow> start" where
  "session sto evs =
     (case mount sto of
        Started st sto1 \<Rightarrow>
          Started (fst (fold dispatch evs (st, sto1))) (snd (fold dispatch evs (st, sto1)))
      | Throws \<Rightarrow> Throws
      | Unmodelled \<Rightarrow> Unmodelled)"

text \<open>
  The session with the events \<open>evs\<close> on the storage that the earlier sessions \<open>evss\<close> left
  behind, each of them started on the storage of the one before.
\<close>

fun sessions :: "storage \<Rightarrow> event list list \<Rightarrow> event list \<Rightarrow> start" where
  "sessions sto [] evs = session sto evs"
| "sessions sto (e # es) evs =
     (case session sto e of
        Started st sto1 \<Rightarrow> sessions sto1 es evs
      | Throws \<Rightarrow> Throws
      | Unmodelled \<Rightarrow> Unmodelled)"

text \<open>The session started, in a state and with a storage that satisfy \<open>P\<close>.\<close>

definition started_with :: "(app \<Rightarrow> storage \<Rightarrow> bool) \<Rightarrow> start \<Rightarrow> bool" where
  "started_with P r = (case r of Started st sto \<Rightarrow> P st sto | Throws \<Rightarrow> False | Unmodelled \<Rightarrow> False)"

text \<open>
  \<open>Date.now()\<close> returns a time value: an integer of magnitude at most \<open>8.64 \<times> 10\<^sup>1\<^sup>5\<close>
  milliseconds, which is a safe integer.
\<close>

definition time_value :: "int \<Rightarrow> bool" where
  "time_value n \<longleftrightarrow> \<bar>n\<bar> \<le> 8640000000000000"

fun clock_ok :: "event \<Rightarrow> bool" where
  "clock_ok (Add now txt) = time_value now"
| "clock_ok _ = True"

text \<open>No task has a blank title.\<close>

definition titles_ok :: "todo list \<Rightarrow> bool" where
  "titles_ok ts \<longleftrightarrow> list_all (\<lambda>t. \<not> blank (title t)) ts"

text \<open>The tokens of a serialized task list, used to relate the two directions.\<close>

definition todo_tokens :: "todo \<Rightarrow> token list" where
  "todo_tokens t =
     [LBrace, TStr (js ''id''), Colon, TNum (of_int (id_t t)), Comma,
      TStr (js ''title''), Colon, TStr (title t), Comma,
      TStr (js ''completed''), Colon, (if completed t then TTrue else TFalse), RBrace]"

fun elems_tokens :: "todo list \<Rightarrow> token list" where
  "elems_tokens [] = []"
| "elems_tokens [t] = todo_tokens t"
| "elems_tokens (t # ts) = todo_tokens t @ Comma # elems_tokens ts"
section \<open>Evaluation rules\<close>

lemmas parse_eval = JSON_parse_def js_def is_digit_def scan_number_def scan_frac_def scan_exp_def
  number_value_def dec_val_def digit_val_def

lemmas stringify_eval = JSON_stringify_def stringify_todo_def number_to_string_def digits.simps
  digit_char_def QuoteJSONString_def is_lead_def is_trail_def js_def

lemmas handler_eval = empty_app_def initial_app_def add_def handleAddTodo_def handleToggle_def
  handleDelete_def handleEditSubmit_def handleEditChange_def handleMarkAll_def
  setCurrentFilter_def filteredTodos_def activeCount_def completedCount_def
  toggle_all_checked_def Let_def trim_def js_def is_ws_def

section \<open>Trimming\<close>

lemma trim_Nil: "trim [] = []"
  by (simp add: trim_def)

lemma trim_not_blank: "trim s \<noteq> [] \<Longrightarrow> \<not> blank (trim s)"
proof -
  assume ne: "trim s \<noteq> []"
  define r where "r = dropWhile is_ws (rev (dropWhile is_ws s))"
  have rne: "r \<noteq> []" using ne by (simp add: trim_def r_def)
  then have "\<not> is_ws (hd r)" unfolding r_def by (rule hd_dropWhile)
  moreover have "hd r \<in> set (trim s)" using rne by (simp add: trim_def r_def[symmetric])
  ultimately show ?thesis by (auto simp: blank_def list_all_iff)
qed

section \<open>Decimal digits\<close>

lemma unat_of_nat16: "k < 65536 \<Longrightarrow> unat (of_nat k :: jschar) = k"
  by (simp add: unat_of_nat)

lemma unat_digit_char: "d < 10 \<Longrightarrow> unat (digit_char d) = 48 + d"
  unfolding digit_char_def by (rule unat_of_nat16) simp

lemma digit_char_props:
  "d < 10 \<Longrightarrow> is_digit (digit_char d)"
  "d < 10 \<Longrightarrow> digit_val (digit_char d) = d"
  "d < 10 \<Longrightarrow> (digit_char d = 0x30) = (d = 0)"
  by (simp_all add: is_digit_def digit_val_def word_le_nat_alt unat_digit_char
        word_eq_iff_unsigned[where ?'a = nat])

lemma digits_all: "list_all is_digit (digits n)"
  by (induction n rule: digits.induct) (subst digits.simps, simp add: digit_char_props)

lemma digits_nonempty: "digits n \<noteq> []"
  by (subst digits.simps) simp

lemma dec_val_Nil: "dec_val [] = 0"
  by (simp add: dec_val_def)

lemma dec_val_snoc: "dec_val (ds @ [c]) = 10 * dec_val ds + digit_val c"
  by (simp add: dec_val_def)

lemma dec_val_digits: "dec_val (digits n) = n"
proof (induction n rule: digits.induct)
  case (1 n)
  show ?case
  proof (cases "n < 10")
    case True
    then show ?thesis by (subst digits.simps) (simp add: dec_val_def digit_char_props)
  next
    case False
    with 1 show ?thesis
      by (subst digits.simps) (simp add: dec_val_snoc digit_char_props)
  qed
qed

lemma hd_digits: "hd (digits n) = 0x30 \<Longrightarrow> tl (digits n) = []"
proof (induction n rule: digits.induct)
  case (1 n)
  show ?case
  proof (cases "n < 10")
    case True
    then show ?thesis by (subst digits.simps) simp
  next
    case False
    then have pos: "n div 10 \<noteq> 0" by simp
    have ne: "digits (n div 10) \<noteq> []" by (rule digits_nonempty)
    from "1.prems" False ne have h: "hd (digits (n div 10)) = 0x30"
      by (subst (asm) digits.simps) simp
    with 1 False have t: "tl (digits (n div 10)) = []" by simp
    have "digits (n div 10) = [0x30]"
      using ne h t by (cases "digits (n div 10)") auto
    then have "dec_val (digits (n div 10)) = 0"
      by (simp add: dec_val_def digit_val_def)
    with pos show ?thesis by (simp add: dec_val_digits)
  qed
qed

lemma takeWhile_digits:
  "rest = [] \<or> \<not> is_digit (hd rest) \<Longrightarrow> takeWhile is_digit (digits n @ rest) = digits n"
  using digits_all[of n] by (cases rest) (auto simp: takeWhile_append2 list_all_iff takeWhile_eq_all_conv[THEN iffD2])

lemma dropWhile_digits:
  "rest = [] \<or> \<not> is_digit (hd rest) \<Longrightarrow> dropWhile is_digit (digits n @ rest) = rest"
  using digits_all[of n] by (cases rest) (auto simp: dropWhile_append2 list_all_iff)

lemma hd_digits_digit: "is_digit (hd (digits n))"
  using digits_all[of n] digits_nonempty[of n] by (cases "digits n") auto

lemma not_digit_simps: "\<not> is_digit 0x2C" "\<not> is_digit 0x2D"
  by (simp_all add: is_digit_def)

lemma scan_digits_comma:
  "takeWhile is_digit (digits m @ 0x2C # rest) = digits m"
  "dropWhile is_digit (digits m @ 0x2C # rest) = 0x2C # rest"
  by (simp_all add: takeWhile_digits dropWhile_digits not_digit_simps)

text \<open>The scanner reads back the integer that \<open>number_to_string\<close> printed.\<close>

lemma scan_number_to_string:
  "scan_number (number_to_string n @ 0x2C # rest) = Some (of_int n, 0x2C # rest)"
proof (cases "n < 0")
  case True
  define m where "m = nat (- n)"
  have s: "number_to_string n = 0x2D # digits m"
    using True by (simp add: number_to_string_def m_def)
  have v: "- (of_nat m :: rat) = of_int n" using True by (simp add: m_def)
  have z: "\<not> (hd (digits m) = 0x30 \<and> tl (digits m) \<noteq> [])" using hd_digits by blast
  show ?thesis
    unfolding s scan_number_def
    using z v
    by (simp add: Let_def scan_digits_comma digits_nonempty scan_frac_def scan_exp_def
          number_value_def dec_val_digits dec_val_Nil)
next
  case False
  define m where "m = nat n"
  have s: "number_to_string n = digits m"
    using False by (simp add: number_to_string_def m_def)
  have v: "(of_nat m :: rat) = of_int n" using False by (simp add: m_def)
  have z: "\<not> (hd (digits m) = 0x30 \<and> tl (digits m) \<noteq> [])" using hd_digits by blast
  have h: "hd (digits m @ 0x2C # rest) \<noteq> 0x2D"
    using hd_digits_digit[of m] digits_nonempty[of m] not_digit_simps by (cases "digits m") auto
  show ?thesis
    unfolding s scan_number_def
    using z v h
    by (simp add: Let_def scan_digits_comma digits_nonempty scan_frac_def scan_exp_def
          number_value_def dec_val_digits dec_val_Nil)
qed

section \<open>Quoted strings\<close>

lemma unat_hex_char: "d < 16 \<Longrightarrow> unat (hex_char d) = (if d < 10 then 48 + d else 87 + d)"
  unfolding hex_char_def by (rule unat_of_nat16) simp

lemma hex_val_hex_char: "d < 16 \<Longrightarrow> hex_val (hex_char d) = Some d"
  by (simp add: hex_val_def is_digit_def word_le_nat_alt unat_hex_char)

lemma hex_digits_value:
  fixes n :: nat
  assumes "n < 65536"
  shows "((n div 4096 mod 16 * 16 + n div 256 mod 16) * 16 + n div 16 mod 16) * 16 + n mod 16 = n"
proof -
  define x where "x = n div 16"
  define y where "y = x div 16"
  define z where "z = y div 16"
  have d256: "n div 256 = y" by (simp add: x_def y_def div_mult2_eq[symmetric])
  have d4096: "n div 4096 = z" by (simp add: x_def y_def z_def div_mult2_eq[symmetric])
  have "z < 16" using assms unfolding d4096[symmetric] by simp
  then have zm: "z mod 16 = z" by simp
  have "z * 16 + y mod 16 = y" unfolding z_def by simp
  moreover have "y * 16 + x mod 16 = x" unfolding y_def by simp
  moreover have "x * 16 + n mod 16 = n" unfolding x_def by simp
  ultimately show ?thesis by (simp add: d256 d4096 zm x_def[symmetric])
qed

lemma hex_roundtrip:
  "hex4 (unat c div 4096 mod 16) (unat c div 256 mod 16) (unat c div 16 mod 16) (unat c mod 16) = c"
proof -
  have "unat c < 2 ^ LENGTH(16)" by (rule unsigned_less)
  then have "unat c < 65536" by simp
  then show ?thesis unfolding hex4_def by (simp only: hex_digits_value) simp
qed

lemma scan_unicode_escape:
  "scan_string (unicode_escape c @ r) = map_option (\<lambda>(s, r'). (c # s, r')) (scan_string r)"
  by (simp add: unicode_escape_def hex_val_hex_char hex_roundtrip)

lemma is_trail_plain: "is_trail d \<Longrightarrow> d \<noteq> 0x22 \<and> d \<noteq> 0x5C \<and> \<not> d < 0x20"
  by (auto simp: is_trail_def word_le_nat_alt word_less_nat_alt)

lemma unescape_simps:
  "unescape 0x62 = Some 0x08" "unescape 0x74 = Some 0x09" "unescape 0x6E = Some 0x0A"
  "unescape 0x66 = Some 0x0C" "unescape 0x72 = Some 0x0D" "unescape 0x22 = Some 0x22"
  "unescape 0x5C = Some 0x5C"
  by (simp_all add: unescape_def)

lemma scan_plain:
  "c \<noteq> 0x22 \<Longrightarrow> c \<noteq> 0x5C \<Longrightarrow> \<not> c < 0x20 \<Longrightarrow> scan_string r = Some (s, r') \<Longrightarrow>
   scan_string (c # r) = Some (c # s, r')"
  by simp

lemma scan_short_escape:
  "unescape e = Some u \<Longrightarrow> e \<noteq> 0x75 \<Longrightarrow> scan_string r = Some (s, r') \<Longrightarrow>
   scan_string (0x5C # e # r) = Some (u # s, r')"
  by simp

lemma scan_uescape:
  "scan_string r = Some (s, r') \<Longrightarrow> scan_string (unicode_escape c @ r) = Some (c # s, r')"
  by (simp add: scan_unicode_escape)

text \<open>The scanner reads back the string that \<open>quote_body\<close> escaped.\<close>

lemma scan_quote_body: "scan_string (quote_body s @ 0x22 # rest) = Some (s, rest)"
proof (induction s rule: length_induct)
  case (1 s)
  show ?case
  proof (cases s)
    case Nil
    then show ?thesis by simp
  next
    case (Cons c cs)
    have IHcs: "scan_string (quote_body cs @ 0x22 # rest) = Some (cs, rest)"
      using 1 Cons by simp
    consider (b) "c = 0x08" | (t) "c = 0x09" | (n) "c = 0x0A" | (f) "c = 0x0C" | (r) "c = 0x0D"
      | (q) "c = 0x22" | (bs) "c = 0x5C"
      | (ctl) "c \<noteq> 0x08" "c \<noteq> 0x09" "c \<noteq> 0x0A" "c \<noteq> 0x0C" "c \<noteq> 0x0D" "c \<noteq> 0x22" "c \<noteq> 0x5C"
          "c < 0x20"
      | (other) "c \<noteq> 0x08" "c \<noteq> 0x09" "c \<noteq> 0x0A" "c \<noteq> 0x0C" "c \<noteq> 0x0D" "c \<noteq> 0x22" "c \<noteq> 0x5C"
          "\<not> c < 0x20"
      by blast
    then show ?thesis
    proof cases
      case b
      have "quote_body s = [0x5C, 0x62] @ quote_body cs" using Cons b by simp
      then show ?thesis using Cons b scan_short_escape[OF unescape_simps(1) _ IHcs] by simp
    next
      case t
      have "quote_body s = [0x5C, 0x74] @ quote_body cs" using Cons t by simp
      then show ?thesis using Cons t scan_short_escape[OF unescape_simps(2) _ IHcs] by simp
    next
      case n
      have "quote_body s = [0x5C, 0x6E] @ quote_body cs" using Cons n by simp
      then show ?thesis using Cons n scan_short_escape[OF unescape_simps(3) _ IHcs] by simp
    next
      case f
      have "quote_body s = [0x5C, 0x66] @ quote_body cs" using Cons f by simp
      then show ?thesis using Cons f scan_short_escape[OF unescape_simps(4) _ IHcs] by simp
    next
      case r
      have "quote_body s = [0x5C, 0x72] @ quote_body cs" using Cons r by simp
      then show ?thesis using Cons r scan_short_escape[OF unescape_simps(5) _ IHcs] by simp
    next
      case q
      have "quote_body s = [0x5C, 0x22] @ quote_body cs" using Cons q by simp
      then show ?thesis using Cons q scan_short_escape[OF unescape_simps(6) _ IHcs] by simp
    next
      case bs
      have "quote_body s = [0x5C, 0x5C] @ quote_body cs" using Cons bs by simp
      then show ?thesis using Cons bs scan_short_escape[OF unescape_simps(7) _ IHcs] by simp
    next
      case ctl
      have "quote_body s = unicode_escape c @ quote_body cs" using Cons ctl by simp
      then show ?thesis using Cons scan_uescape[OF IHcs] by simp
    next
      case other
      show ?thesis
      proof (cases "is_lead c")
        case lead: True
        show ?thesis
        proof (cases cs)
          case Nil
          have "quote_body s = unicode_escape c" using Cons Nil other lead by simp
          then show ?thesis using Cons Nil scan_uescape[of "0x22 # rest" "[]" rest c] by simp
        next
          case (Cons d cs')
          note cs = Cons
          show ?thesis
          proof (cases "is_trail d")
            case tr: True
            have IH2: "scan_string (quote_body cs' @ 0x22 # rest) = Some (cs', rest)"
              using 1 \<open>s = c # cs\<close> cs by simp
            have e: "quote_body s = c # d # quote_body cs'"
              using \<open>s = c # cs\<close> cs other lead tr by simp
            have pd: "d \<noteq> 0x22" "d \<noteq> 0x5C" "\<not> d < 0x20"
              using is_trail_plain[OF tr] by simp_all
            have "scan_string (c # d # quote_body cs' @ 0x22 # rest) = Some (c # d # cs', rest)"
              by (rule scan_plain[OF other(6,7,8) scan_plain[OF pd IH2]])
            then show ?thesis using e \<open>s = c # cs\<close> cs by simp
          next
            case ntr: False
            have "quote_body s = unicode_escape c @ quote_body cs"
              using \<open>s = c # cs\<close> cs other lead ntr by simp
            then show ?thesis using \<open>s = c # cs\<close> scan_uescape[OF IHcs] by simp
          qed
        qed
      next
        case nlead: False
        show ?thesis
        proof (cases "is_trail c")
          case True
          have "quote_body s = unicode_escape c @ quote_body cs" using Cons other nlead True by simp
          then show ?thesis using Cons scan_uescape[OF IHcs] by simp
        next
          case False
          have e: "quote_body s = c # quote_body cs" using Cons other nlead False by simp
          have "scan_string (c # quote_body cs @ 0x22 # rest) = Some (c # cs, rest)"
            by (rule scan_plain[OF other(6,7,8) IHcs])
          then show ?thesis using e Cons by simp
        qed
      qed
    qed
  qed
qed

section \<open>Parsing a serialized task list\<close>

lemma tokenize_number_to_string:
  assumes "tokenize (0x2C # rest) = Some ts"
  shows "tokenize (number_to_string n @ 0x2C # rest) = Some (TNum (of_int n) # ts)"
proof -
  obtain c cs where e: "number_to_string n = c # cs" and h: "c = 0x2D \<or> is_digit c"
  proof (cases "n < 0")
    case True
    then show ?thesis using that by (simp add: number_to_string_def)
  next
    case False
    then have "number_to_string n = digits (nat n)" by (simp add: number_to_string_def)
    then show ?thesis
      using that hd_digits_digit[of "nat n"] digits_nonempty[of "nat n"]
      by (cases "digits (nat n)") auto
  qed
  have np: "c \<noteq> 0x20" "c \<noteq> 0x09" "c \<noteq> 0x0A" "c \<noteq> 0x0D" "c \<noteq> 0x5B" "c \<noteq> 0x5D"
    "c \<noteq> 0x7B" "c \<noteq> 0x7D" "c \<noteq> 0x2C" "c \<noteq> 0x3A" "c \<noteq> 0x22"
    using h by (auto simp: is_digit_def)
  have "scan_number (c # cs @ 0x2C # rest) = Some (of_int n, 0x2C # rest)"
    using scan_number_to_string[of n rest] e by simp
  then show ?thesis
    using e np h assms by (simp del: tokenize.simps add: tokenize.simps(2)[of c])
qed

lemma tokenize_id_key:
  \<open>tokenize r = Some ts \<Longrightarrow> tokenize (js ''{"id":'' @ r) = Some (LBrace # TStr (js ''id'') # Colon # ts)\<close>
  by (simp add: js_def)

lemma tokenize_title_key:
  \<open>tokenize r = Some ts \<Longrightarrow> tokenize (js '',"title":'' @ r) = Some (Comma # TStr (js ''title'') # Colon # ts)\<close>
  by (simp add: js_def)

lemma tokenize_completed_true:
  \<open>tokenize r = Some ts \<Longrightarrow>
   tokenize (js '',"completed":'' @ js ''true'' @ js ''}'' @ r) =
     Some (Comma # TStr (js ''completed'') # Colon # TTrue # RBrace # ts)\<close>
  by (simp add: js_def is_digit_def)

lemma tokenize_completed_false:
  \<open>tokenize r = Some ts \<Longrightarrow>
   tokenize (js '',"completed":'' @ js ''false'' @ js ''}'' @ r) =
     Some (Comma # TStr (js ''completed'') # Colon # TFalse # RBrace # ts)\<close>
  by (simp add: js_def is_digit_def)

lemma tokenize_quote:
  "tokenize r = Some ts \<Longrightarrow> tokenize (QuoteJSONString s @ r) = Some (TStr s # ts)"
  by (simp add: QuoteJSONString_def scan_quote_body)

lemma tokenize_comma: "tokenize r = Some ts \<Longrightarrow> tokenize (0x2C # r) = Some (Comma # ts)"
  by simp

lemma tokenize_stringify_todo:
  assumes "tokenize r = Some ts"
  shows "tokenize (stringify_todo t @ r) = Some (todo_tokens t @ ts)"
proof -
  define tail3 where
    "tail3 = (if completed t then js ''true'' else js ''false'') @ js ''}'' @ r"
  define ts3 where "ts3 = (if completed t then TTrue else TFalse) # RBrace # ts"
  define rest1 where
    \<open>rest1 = tl (js '',"title":'') @ QuoteJSONString (title t) @ js '',"completed":'' @ tail3\<close>
  have l3: \<open>tokenize (js '',"completed":'' @ tail3) =
      Some (Comma # TStr (js ''completed'') # Colon # ts3)\<close>
    using tokenize_completed_true[OF assms] tokenize_completed_false[OF assms]
    by (simp add: tail3_def ts3_def)
  have l2: \<open>tokenize (QuoteJSONString (title t) @ js '',"completed":'' @ tail3) =
      Some (TStr (title t) # Comma # TStr (js ''completed'') # Colon # ts3)\<close>
    by (rule tokenize_quote[OF l3])
  have l1: \<open>tokenize (js '',"title":'' @ QuoteJSONString (title t) @ js '',"completed":'' @ tail3) =
      Some (Comma # TStr (js ''title'') # Colon # TStr (title t) # Comma #
            TStr (js ''completed'') # Colon # ts3)\<close>
    by (rule tokenize_title_key[OF l2])
  have c: \<open>js '',"title":'' @ QuoteJSONString (title t) @ js '',"completed":'' @ tail3 =
      0x2C # rest1\<close>
    by (simp add: rest1_def js_def)
  have l1': "tokenize (0x2C # rest1) =
      Some (Comma # TStr (js ''title'') # Colon # TStr (title t) # Comma #
            TStr (js ''completed'') # Colon # ts3)"
    using l1 unfolding c .
  have l0: "tokenize (number_to_string (id_t t) @ 0x2C # rest1) =
      Some (TNum (of_int (id_t t)) # Comma # TStr (js ''title'') # Colon # TStr (title t) # Comma #
            TStr (js ''completed'') # Colon # ts3)"
    by (rule tokenize_number_to_string[OF l1'])
  have e: \<open>stringify_todo t @ r = js ''{"id":'' @ number_to_string (id_t t) @ 0x2C # rest1\<close>
    unfolding c[symmetric] by (simp add: stringify_todo_def tail3_def)
  show ?thesis
    unfolding e using tokenize_id_key[OF l0]
    by (simp add: todo_tokens_def ts3_def del: tokenize.simps)
qed

lemma tokenize_stringify_elems:
  "tokenize r = Some ts \<Longrightarrow> tokenize (stringify_elems L @ r) = Some (elems_tokens L @ ts)"
proof (induction L rule: stringify_elems.induct)
  case 1
  then show ?case by simp
next
  case (2 t)
  then show ?case by (simp add: tokenize_stringify_todo del: tokenize.simps)
next
  case (3 t u us)
  have "tokenize (stringify_elems (u # us) @ r) = Some (elems_tokens (u # us) @ ts)"
    using 3 by simp
  then have "tokenize (0x2C # stringify_elems (u # us) @ r) = Some (Comma # elems_tokens (u # us) @ ts)"
    by (rule tokenize_comma)
  then have "tokenize (stringify_todo t @ 0x2C # stringify_elems (u # us) @ r) =
      Some (todo_tokens t @ Comma # elems_tokens (u # us) @ ts)"
    by (rule tokenize_stringify_todo)
  then show ?case by (simp del: tokenize.simps)
qed

lemma tokenize_JSON_stringify:
  "tokenize (JSON_stringify L) = Some (LBracket # elems_tokens L @ [RBracket])"
proof -
  have "tokenize [0x5D] = Some [RBracket]" by simp
  then have "tokenize (stringify_elems L @ [0x5D]) = Some (elems_tokens L @ [RBracket])"
    by (rule tokenize_stringify_elems)
  then show ?thesis by (simp add: JSON_stringify_def)
qed

lemma run_todo_tokens:
  "m = MValue \<or> m = MArrFirst \<Longrightarrow>
   run (todo_tokens t @ ts) (m, FArr vs # st) = run ts (MAfter, FArr (json_of_todo t # vs) # st)"
  by (auto simp: todo_tokens_def json_of_todo_def)

lemma run_elems_tokens:
  "L \<noteq> [] \<Longrightarrow> m = MValue \<or> m = MArrFirst \<Longrightarrow>
   run (elems_tokens L @ ts) (m, FArr vs # st) =
     run ts (MAfter, FArr (rev (map json_of_todo L) @ vs) # st)"
proof (induction L arbitrary: m vs rule: elems_tokens.induct)
  case 1
  then show ?case by simp
next
  case (2 t)
  then show ?case by (simp add: run_todo_tokens)
next
  case (3 t u us)
  have "run (elems_tokens (t # u # us) @ ts) (m, FArr vs # st) =
      run (Comma # elems_tokens (u # us) @ ts) (MAfter, FArr (json_of_todo t # vs) # st)"
    using "3.prems"(2) run_todo_tokens[of m t "Comma # elems_tokens (u # us) @ ts" vs st] by simp
  also have "\<dots> = run (elems_tokens (u # us) @ ts) (MValue, FArr (json_of_todo t # vs) # st)"
    by simp
  also have "\<dots> = run ts (MAfter, FArr (rev (map json_of_todo (u # us)) @ json_of_todo t # vs) # st)"
    by (rule "3.IH") simp_all
  finally show ?case by simp
qed

lemma run_tokens:
  "run (LBracket # elems_tokens L @ [RBracket]) (MValue, []) = Some (MDone (json_of_todos L), [])"
proof (cases "L = []")
  case True
  then show ?thesis by (simp add: json_of_todos_def)
next
  case False
  have "run (LBracket # elems_tokens L @ [RBracket]) (MValue, []) =
      run (elems_tokens L @ [RBracket]) (MArrFirst, [FArr []])"
    by simp
  also have "\<dots> = run [RBracket] (MAfter, [FArr (rev (map json_of_todo L) @ [])])"
    using False by (rule run_elems_tokens) simp
  also have "\<dots> = Some (MDone (json_of_todos L), [])"
    by (simp add: json_of_todos_def)
  finally show ?thesis .
qed

text \<open>Parsing what \<open>JSON.stringify\<close> wrote gives the list back, as a JavaScript value.\<close>

lemma JSON_parse_stringify: "JSON_parse (JSON_stringify L) = Some (json_of_todos L)"
  by (simp add: JSON_parse_def tokenize_JSON_stringify run_tokens del: run.simps)

lemma JSON_stringify_nonempty: "JSON_stringify L \<noteq> []"
  by (simp add: JSON_stringify_def)

lemma tokenize_brackets: "tokenize (js ''[]'') = Some [LBracket, RBracket]"
  by (simp add: js_def)

lemma JSON_parse_empty_array: "JSON_parse (js ''[]'') = Some (JArr [])"
  by (simp add: JSON_parse_def tokenize_brackets)

lemma JSON_parse_Nil: "JSON_parse [] = None"
  by (simp add: JSON_parse_def)

lemma as_todo_json_of_todo: "as_todo (json_of_todo t) = Some t"
  by (simp add: as_todo_def json_of_todo_def get_prop_def js_def)

lemma as_todos_json_of_todos: "as_todos (json_of_todos L) = Some L"
  by (induction L) (simp_all add: as_todos_def json_of_todos_def as_todo_json_of_todo)

lemma loadTodos_saveTodos: "loadTodos (saveTodos L sto) = json_of_todos L"
  by (simp add: loadTodos_def saveTodos_def getItem_def setItem_def JSON_parse_stringify
        JSON_stringify_nonempty)
section \<open>Persist and load\<close>

text \<open>
  C1. For every well-formed task list \<open>L\<close>, loading what \<open>saveTodos\<close> wrote for \<open>L\<close> gives
  \<open>L\<close> back: the value that \<open>loadTodos\<close> returns is the list of the objects of \<open>L\<close>, and read
  at the type \<open>Todo[]\<close> it has the ids, titles and completion flags of \<open>L\<close>, element for
  element and in order.
\<close>

theorem load_save_roundtrip:
  "well_formed L \<Longrightarrow>
     loadTodos (saveTodos L sto) = json_of_todos L
     \<and> as_todos (loadTodos (saveTodos L sto)) = Some L"
  by (simp add: loadTodos_saveTodos as_todos_json_of_todos)

theorem load_save_roundtrip_witness:
  \<open>well_formed [\<lparr>id_t = 1730000000000, title = js ''buy milk'', completed = True\<rparr>,
                 \<lparr>id_t = - 5, title = [0x22, 0x5C, 0x0A, 0xD83D, 0xDE00, 0xDC00, 0x4E2D], completed = False\<rparr>]
   \<and> as_todos (loadTodos (saveTodos
         [\<lparr>id_t = 1730000000000, title = js ''buy milk'', completed = True\<rparr>,
          \<lparr>id_t = - 5, title = [0x22, 0x5C, 0x0A, 0xD83D, 0xDE00, 0xDC00, 0x4E2D], completed = False\<rparr>]
         Map.empty))
     = Some [\<lparr>id_t = 1730000000000, title = js ''buy milk'', completed = True\<rparr>,
             \<lparr>id_t = - 5, title = [0x22, 0x5C, 0x0A, 0xD83D, 0xDE00, 0xDC00, 0x4E2D], completed = False\<rparr>]
   \<and> saveTodos [\<lparr>id_t = 12, title = js ''a b'', completed = True\<rparr>] Map.empty LOCAL_STORAGE_KEY
     = Some (js ''[{"id":12,"title":"a b","completed":true}]'')\<close>
proof -
  have w: "well_formed [\<lparr>id_t = 1730000000000, title = js ''buy milk'', completed = True\<rparr>,
                 \<lparr>id_t = - 5, title = [0x22, 0x5C, 0x0A, 0xD83D, 0xDE00, 0xDC00, 0x4E2D], completed = False\<rparr>]"
    by (simp add: well_formed_def safe_integer_def)
  have s: \<open>JSON_stringify [\<lparr>id_t = 12, title = js ''a b'', completed = True\<rparr>] =
      js ''[{"id":12,"title":"a b","completed":true}]''\<close>
    by (simp add: stringify_eval)
  have r: "as_todos (loadTodos (saveTodos
         [\<lparr>id_t = 1730000000000, title = js ''buy milk'', completed = True\<rparr>,
          \<lparr>id_t = - 5, title = [0x22, 0x5C, 0x0A, 0xD83D, 0xDE00, 0xDC00, 0x4E2D], completed = False\<rparr>]
         Map.empty))
     = Some [\<lparr>id_t = 1730000000000, title = js ''buy milk'', completed = True\<rparr>,
             \<lparr>id_t = - 5, title = [0x22, 0x5C, 0x0A, 0xD83D, 0xDE00, 0xDC00, 0x4E2D], completed = False\<rparr>]"
    using load_save_roundtrip[OF w, of Map.empty] by (rule conjunct2)
  have k: \<open>saveTodos [\<lparr>id_t = 12, title = js ''a b'', completed = True\<rparr>] Map.empty LOCAL_STORAGE_KEY
     = Some (js ''[{"id":12,"title":"a b","completed":true}]'')\<close>
    by (simp add: saveTodos_def setItem_def s)
  show ?thesis by (intro conjI w r k)
qed

text \<open>
  When the key is absent or the stored string is not a JSON text, \<open>loadTodos\<close> returns the
  empty list.
\<close>

lemma loadTodos_absent_or_invalid:
  "(getItem sto LOCAL_STORAGE_KEY = None \<longrightarrow> loadTodos sto = JArr [])
   \<and> (getItem sto LOCAL_STORAGE_KEY = Some s \<and> JSON_parse s = None \<longrightarrow> loadTodos sto = JArr [])"
  by (auto simp: loadTodos_def JSON_parse_empty_array JSON_parse_Nil)

text \<open>
  C2. \<open>loadTodos\<close> does not return the empty list for every content of the storage entry.
  The stored string \<open>42\<close> is a JSON text, so nothing is thrown inside the \<open>try\<close> and
  \<open>loadTodos\<close>, declared to return \<open>Todo[]\<close>, returns the number 42: neither the empty list
  nor a list. The first render then throws.
\<close>

theorem loadTodos_returns_number:
  "loadTodos (Map.empty(LOCAL_STORAGE_KEY \<mapsto> js ''42'')) = JNum 42
   \<and> loadTodos (Map.empty(LOCAL_STORAGE_KEY \<mapsto> js ''42'')) \<noteq> JArr []
   \<and> as_todos (loadTodos (Map.empty(LOCAL_STORAGE_KEY \<mapsto> js ''42''))) = None
   \<and> mount (Map.empty(LOCAL_STORAGE_KEY \<mapsto> js ''42'')) = Throws"
  by (simp add: mount_def loadTodos_def getItem_def as_todos_def parse_eval)

section \<open>Adding tasks\<close>

lemma todos_add:
  "todos (add a st) = (if trim (snd a) = [] then todos st else todos st @ [new_task a])"
  by (simp add: add_def handleAddTodo_def new_task_def Let_def)

lemma todos_fold_add:
  "todos (fold add as st) = todos st @ map new_task (filter (\<lambda>a. trim (snd a) \<noteq> []) as)"
  by (induction as arbitrary: st) (simp_all add: todos_add)

text \<open>
  C3. \<open>Add\<close> trims its input. A blank input leaves the task list as it is; any other
  input appends exactly one task, with the trimmed title and \<open>completed = false\<close>, behind
  the existing tasks. After a sequence of adds the list is the old list followed by the
  tasks of the adds with non-empty trimmed text, in call order, so its length is the old
  length plus the number of those adds.
\<close>

theorem add_appends_trimmed:
  "todos (add (now, txt) st) =
     (if trim txt = [] then todos st
      else todos st @ [\<lparr>id_t = now, title = trim txt, completed = False\<rparr>])
   \<and> todos (fold add as st) =
       todos st @ map new_task (filter (\<lambda>a. trim (snd a) \<noteq> []) as)
   \<and> length (todos (fold add as st)) =
       length (todos st) + length (filter (\<lambda>a. trim (snd a) \<noteq> []) as)"
  by (simp add: todos_add todos_fold_add new_task_def)

theorem add_appends_trimmed_witness:
  "todos (add (5, js '' milk '') empty_app) =
     [\<lparr>id_t = 5, title = js ''milk'', completed = False\<rparr>]
  \<and> todos (fold add [(1, js ''a''), (2, js ''  ''), (3, js ''b '')] empty_app) =
     [\<lparr>id_t = 1, title = js ''a'', completed = False\<rparr>, \<lparr>id_t = 3, title = js ''b'', completed = False\<rparr>]"
  using add_appends_trimmed[of 5 "js '' milk ''" empty_app "[(1, js ''a''), (2, js ''  ''), (3, js ''b '')]"]
  by (simp add: trim_def js_def is_ws_def empty_app_def initial_app_def new_task_def)

text \<open>
  C4. The id of a new task is the value of \<open>Date.now()\<close>, and nothing compares it with the
  ids already in the list: two adds in the same millisecond create two tasks with the same
  id, and a toggle of that id then changes both.
\<close>

theorem same_millisecond_duplicate_ids:
  "map id_t (todos (fold add [(1000, js ''a''), (1000, js ''b'')] empty_app)) = [1000, 1000]
   \<and> \<not> distinct (map id_t (todos (fold add [(1000, js ''a''), (1000, js ''b'')] empty_app)))
   \<and> map completed
        (todos (handleToggle 1000 (fold add [(1000, js ''a''), (1000, js ''b'')] empty_app)))
      = [True, True]"
  by (simp add: handler_eval)

text \<open>An add keeps the ids distinct when its time stamp is not yet an id of the list.\<close>

lemma add_fresh_distinct:
  "distinct (map id_t (todos st)) \<Longrightarrow> now \<notin> id_t ` set (todos st) \<Longrightarrow>
   distinct (map id_t (todos (add (now, inp) st)))"
  by (auto simp: todos_add new_task_def)

section \<open>Committing an edit\<close>

text \<open>
  C5. \<open>CommitEdit\<close> trims the draft. A non-empty result replaces the title of the tasks
  with the given id; an empty result changes the task list exactly as \<open>Delete\<close> of that id
  does. Afterwards no task is being edited and the draft is empty, in both cases.
\<close>

theorem commitEdit_effect:
  "todos (commitEdit i draft st) =
     (if trim draft = [] then todos (handleDelete i st)
      else map (\<lambda>t. if id_t t = i then t\<lparr>title := trim draft\<rparr> else t) (todos st))
   \<and> todos (commitEdit i [] st) = todos (handleDelete i st)
   \<and> todos (handleEditSubmit i st) =
       (if trim (editValue st) = [] then todos (handleDelete i st)
        else map (\<lambda>t. if id_t t = i then t\<lparr>title := trim (editValue st)\<rparr> else t) (todos st))
   \<and> editingId (commitEdit i draft st) = None \<and> editValue (commitEdit i draft st) = []
   \<and> editingId (handleEditSubmit i st) = None \<and> editValue (handleEditSubmit i st) = []"
  by (simp add: commitEdit_def handleEditSubmit_def handleEditChange_def handleDelete_def Let_def
        trim_Nil)

theorem commitEdit_effect_witness:
  "todos (commitEdit 1 (js '' tea '')
      (initial_app [\<lparr>id_t = 1, title = js ''milk'', completed = True\<rparr>,
                    \<lparr>id_t = 2, title = js ''cat'', completed = False\<rparr>]))
     = [\<lparr>id_t = 1, title = js ''tea'', completed = True\<rparr>,
        \<lparr>id_t = 2, title = js ''cat'', completed = False\<rparr>]
   \<and> todos (commitEdit 1 (js ''  '')
      (initial_app [\<lparr>id_t = 1, title = js ''milk'', completed = True\<rparr>,
                    \<lparr>id_t = 2, title = js ''cat'', completed = False\<rparr>]))
     = [\<lparr>id_t = 2, title = js ''cat'', completed = False\<rparr>]"
  using commitEdit_effect[of 1 "js '' tea ''" "initial_app [\<lparr>id_t = 1, title = js ''milk'', completed = True\<rparr>,
                    \<lparr>id_t = 2, title = js ''cat'', completed = False\<rparr>]"]
    commitEdit_effect[of 1 "js ''  ''" "initial_app [\<lparr>id_t = 1, title = js ''milk'', completed = True\<rparr>,
                    \<lparr>id_t = 2, title = js ''cat'', completed = False\<rparr>]"]
  by (simp add: initial_app_def handleDelete_def trim_def js_def is_ws_def)

section \<open>Toggling\<close>

text \<open>
  C6. \<open>Toggle\<close> flips the completion flag of the tasks with the given id, leaves the
  state as it is when no task has that id, and two toggles of the same id in a row give
  the state back.
\<close>

theorem handleToggle_involution:
  "(\<forall>k < length (todos st).
      completed (todos (handleToggle i st) ! k) =
        (if id_t (todos st ! k) = i then \<not> completed (todos st ! k) else completed (todos st ! k)))
   \<and> ((\<forall>t \<in> set (todos st). id_t t \<noteq> i) \<longrightarrow> handleToggle i st = st)
   \<and> handleToggle i (handleToggle i st) = st"
  by (simp add: handleToggle_def o_def map_idI)

theorem handleToggle_involution_witness:
  "completed (todos (handleToggle 1
      (initial_app [\<lparr>id_t = 1, title = js ''a'', completed = False\<rparr>,
                    \<lparr>id_t = 2, title = js ''b'', completed = False\<rparr>]) ) ! 0) = True
   \<and> handleToggle 3 (initial_app [\<lparr>id_t = 1, title = js ''a'', completed = False\<rparr>,
                    \<lparr>id_t = 2, title = js ''b'', completed = False\<rparr>])
     = initial_app [\<lparr>id_t = 1, title = js ''a'', completed = False\<rparr>,
                    \<lparr>id_t = 2, title = js ''b'', completed = False\<rparr>]
   \<and> handleToggle 1 (handleToggle 1 (initial_app [\<lparr>id_t = 1, title = js ''a'', completed = False\<rparr>,
                    \<lparr>id_t = 2, title = js ''b'', completed = False\<rparr>]))
     = initial_app [\<lparr>id_t = 1, title = js ''a'', completed = False\<rparr>,
                    \<lparr>id_t = 2, title = js ''b'', completed = False\<rparr>]"
  using handleToggle_involution[of "initial_app [\<lparr>id_t = 1, title = js ''a'', completed = False\<rparr>,
                    \<lparr>id_t = 2, title = js ''b'', completed = False\<rparr>]" 1]
    handleToggle_involution[of "initial_app [\<lparr>id_t = 1, title = js ''a'', completed = False\<rparr>,
                    \<lparr>id_t = 2, title = js ''b'', completed = False\<rparr>]" 3]
  by (simp add: initial_app_def)

section \<open>Titles\<close>

lemma titles_ok_handle: "titles_ok (todos st) \<Longrightarrow> titles_ok (todos (handle ev st))"
proof (cases ev)
  case (Add now inp)
  assume "titles_ok (todos st)"
  then show ?thesis using Add trim_not_blank[of inp]
    by (simp add: todos_add new_task_def titles_ok_def)
next
  case (EditSubmit i)
  assume "titles_ok (todos st)"
  then show ?thesis using EditSubmit trim_not_blank[of "editValue st"]
    by (auto simp: handleEditSubmit_def handleDelete_def Let_def titles_ok_def list_all_iff)
next
  case (EditKeyDown key i)
  assume "titles_ok (todos st)"
  then show ?thesis using EditKeyDown trim_not_blank[of "editValue st"]
    by (auto simp: handleEditKeyDown_def handleEditSubmit_def handleDelete_def Let_def
          titles_ok_def list_all_iff)
next
  case (EditBlur i)
  assume "titles_ok (todos st)"
  then show ?thesis using EditBlur trim_not_blank[of "editValue st"]
    by (auto simp: handleEditBlur_def handleEditSubmit_def handleDelete_def Let_def
          titles_ok_def list_all_iff)
qed (auto simp: titles_ok_def list_all_iff handleToggle_def handleDelete_def handleEditStart_def
       handleEditChange_def handleClearCompleted_def handleMarkAll_def setCurrentFilter_def)

lemma titles_ok_fold_handle:
  "titles_ok (todos st) \<Longrightarrow> titles_ok (todos (fold handle evs st))"
  by (induction evs arbitrary: st) (simp_all add: titles_ok_handle)

lemma time_value_safe: "time_value n \<Longrightarrow> safe_integer n"
  by (simp add: time_value_def safe_integer_def)

lemma well_formed_handle:
  "clock_ok ev \<Longrightarrow> well_formed (todos st) \<Longrightarrow> well_formed (todos (handle ev st))"
proof (cases ev)
  case (Add now inp)
  assume "clock_ok ev" "well_formed (todos st)"
  then show ?thesis using Add time_value_safe[of now]
    by (simp add: todos_add new_task_def well_formed_def)
qed (auto simp: well_formed_def list_all_iff handleToggle_def handleDelete_def handleEditStart_def
       handleEditChange_def handleClearCompleted_def handleMarkAll_def setCurrentFilter_def
       handleEditSubmit_def handleEditKeyDown_def handleEditBlur_def Let_def)

lemma well_formed_fold_handle:
  "list_all clock_ok evs \<Longrightarrow> well_formed (todos st) \<Longrightarrow> well_formed (todos (fold handle evs st))"
  by (induction evs arbitrary: st) (simp_all add: well_formed_handle)

lemma fst_fold_dispatch: "fst (fold dispatch evs w) = fold handle evs (fst w)"
  by (induction evs arbitrary: w) (simp_all add: dispatch_def)

lemma stored_fold_dispatch:
  "snd w LOCAL_STORAGE_KEY = Some (JSON_stringify (todos (fst w))) \<Longrightarrow>
   snd (fold dispatch evs w) LOCAL_STORAGE_KEY =
     Some (JSON_stringify (todos (fst (fold dispatch evs w))))"
  by (induction evs arbitrary: w) (simp_all add: dispatch_def saveTodos_def setItem_def)

text \<open>A session on a storage without the key, or with a list that the store wrote.\<close>

lemma loadTodos_stored:
  "getItem sto LOCAL_STORAGE_KEY = Some (JSON_stringify L) \<Longrightarrow> loadTodos sto = json_of_todos L"
  by (simp add: loadTodos_def JSON_parse_stringify JSON_stringify_nonempty)

lemma mount_fresh:
  "getItem sto LOCAL_STORAGE_KEY = None \<Longrightarrow>
   mount sto = Started (initial_app []) (saveTodos [] sto)"
  by (simp add: mount_def loadTodos_def JSON_parse_empty_array as_todos_def json_of_todos_def
        well_formed_def)

lemma mount_stored:
  assumes "getItem sto LOCAL_STORAGE_KEY = Some (JSON_stringify L)" and "well_formed L"
  shows "mount sto = Started (initial_app L) (saveTodos L sto)"
proof -
  have l: "loadTodos sto = JArr (map json_of_todo L)"
    using loadTodos_stored[OF assms(1)] by (simp add: json_of_todos_def)
  have a: "as_todos (JArr (map json_of_todo L)) = Some L"
    using as_todos_json_of_todos[of L] by (simp add: json_of_todos_def)
  show ?thesis
    unfolding mount_def l using a assms(2) by (simp add: json_of_todos_def)
qed

lemma session_own_storage:
  assumes own: "getItem sto LOCAL_STORAGE_KEY = None \<or>
      (\<exists>L. getItem sto LOCAL_STORAGE_KEY = Some (JSON_stringify L) \<and> titles_ok L \<and> well_formed L)"
    and clock: "list_all clock_ok evs"
  shows "\<exists>st sto'. session sto evs = Started st sto' \<and> titles_ok (todos st) \<and> well_formed (todos st)
     \<and> getItem sto' LOCAL_STORAGE_KEY = Some (JSON_stringify (todos st))"
proof -
  from own obtain L where m: "mount sto = Started (initial_app L) (saveTodos L sto)"
    and t: "titles_ok L" and w: "well_formed L"
  proof
    assume "getItem sto LOCAL_STORAGE_KEY = None"
    then have "mount sto = Started (initial_app []) (saveTodos [] sto)" by (rule mount_fresh)
    then show ?thesis using that[of "[]"] by (simp add: titles_ok_def well_formed_def)
  next
    assume "\<exists>L. getItem sto LOCAL_STORAGE_KEY = Some (JSON_stringify L) \<and> titles_ok L \<and> well_formed L"
    then obtain L where "getItem sto LOCAL_STORAGE_KEY = Some (JSON_stringify L)"
      "titles_ok L" "well_formed L" by blast
    then show ?thesis using that[of L] mount_stored[of sto L] by simp
  qed
  define w0 where "w0 = (initial_app L, saveTodos L sto)"
  define st where "st = fst (fold dispatch evs w0)"
  define sto' where "sto' = snd (fold dispatch evs w0)"
  have s: "session sto evs = Started st sto'"
    by (simp add: session_def m st_def sto'_def w0_def)
  have f: "st = fold handle evs (initial_app L)"
    by (simp add: st_def fst_fold_dispatch w0_def)
  have t': "titles_ok (todos st)"
    unfolding f using t by (intro titles_ok_fold_handle) (simp add: initial_app_def)
  have w': "well_formed (todos st)"
    unfolding f using clock w by (intro well_formed_fold_handle) (simp_all add: initial_app_def)
  have "snd w0 LOCAL_STORAGE_KEY = Some (JSON_stringify (todos (fst w0)))"
    by (simp add: w0_def saveTodos_def setItem_def initial_app_def)
  then have "sto' LOCAL_STORAGE_KEY = Some (JSON_stringify (todos st))"
    unfolding sto'_def st_def by (rule stored_fold_dispatch)
  then show ?thesis using s t' w' by (simp add: getItem_def)
qed

lemma sessions_own_storage:
  assumes "getItem sto LOCAL_STORAGE_KEY = None \<or>
      (\<exists>L. getItem sto LOCAL_STORAGE_KEY = Some (JSON_stringify L) \<and> titles_ok L \<and> well_formed L)"
    and "list_all (list_all clock_ok) evss" and "list_all clock_ok evs"
  shows "started_with (\<lambda>st sto'. titles_ok (todos st) \<and>
            getItem sto' LOCAL_STORAGE_KEY = Some (JSON_stringify (todos st)))
          (sessions sto evss evs)"
  using assms
proof (induction evss arbitrary: sto)
  case Nil
  from session_own_storage[OF Nil(1) Nil(3)] show ?case
    by (auto simp: started_with_def)
next
  case (Cons e es)
  from Cons.prems(2) have ce: "list_all clock_ok e" and ces: "list_all (list_all clock_ok) es"
    by simp_all
  from session_own_storage[OF Cons.prems(1) ce] obtain st sto1 where
    s: "session sto e = Started st sto1" and t: "titles_ok (todos st)" and w: "well_formed (todos st)"
    and g: "getItem sto1 LOCAL_STORAGE_KEY = Some (JSON_stringify (todos st))"
    by blast
  have "getItem sto1 LOCAL_STORAGE_KEY = None \<or>
      (\<exists>L. getItem sto1 LOCAL_STORAGE_KEY = Some (JSON_stringify L) \<and> titles_ok L \<and> well_formed L)"
    using t w g by blast
  from Cons.IH[OF this ces Cons.prems(3)] s show ?case by simp
qed

text \<open>
  C7. The storage entry belongs to the store alone: it is absent before the first session
  and written by no one else. Then, whatever the events of the earlier sessions and of the
  current one (with clock readings that are time values), the session starts, no task of
  its state has a blank title, and the stored string is the serialization of that list:
  every list written to the storage is free of blank titles. \<open>Add\<close> does nothing on a blank
  input, and an edit whose trimmed draft is empty deletes the task.
\<close>

theorem titles_never_blank:
  assumes "getItem sto LOCAL_STORAGE_KEY = None"
    and "list_all (list_all clock_ok) evss" and "list_all clock_ok evs"
  shows "started_with (\<lambda>st sto'. titles_ok (todos st) \<and>
            getItem sto' LOCAL_STORAGE_KEY = Some (JSON_stringify (todos st)))
          (sessions sto evss evs)
     \<and> (trim inp = [] \<longrightarrow> todos (add (now, inp) st1) = todos st1)
     \<and> (trim (editValue st2) = [] \<longrightarrow>
          todos (handleEditSubmit i st2) = todos (handleDelete i st2))"
proof -
  have "started_with (\<lambda>st sto'. titles_ok (todos st) \<and>
            getItem sto' LOCAL_STORAGE_KEY = Some (JSON_stringify (todos st)))
          (sessions sto evss evs)"
    using assms by (intro sessions_own_storage) simp_all
  then show ?thesis by (simp add: todos_add handleEditSubmit_def Let_def)
qed

theorem titles_never_blank_witness:
  "started_with (\<lambda>st sto'. titles_ok (todos st) \<and>
        getItem sto' LOCAL_STORAGE_KEY = Some (JSON_stringify (todos st)))
     (sessions Map.empty
        [[Add 7 (js '' a ''), Add 8 (js ''  '')], [Toggle 7]]
        [EditStart \<lparr>id_t = 7, title = js ''a'', completed = True\<rparr>, EditChange (js '' ''),
         EditSubmit 7, Add 9 (js ''c '')])
   \<and> todos (add (8, js ''  '') (initial_app [\<lparr>id_t = 7, title = js ''a'', completed = False\<rparr>]))
       = [\<lparr>id_t = 7, title = js ''a'', completed = False\<rparr>]
   \<and> todos (handleEditSubmit 7 (handleEditChange (js '' '')
         (initial_app [\<lparr>id_t = 7, title = js ''a'', completed = False\<rparr>]))) = []"
proof -
  have c1: "list_all (list_all clock_ok) [[Add 7 (js '' a ''), Add 8 (js ''  '')], [Toggle 7]]"
    by (simp add: time_value_def)
  have c2: "list_all clock_ok [EditStart \<lparr>id_t = 7, title = js ''a'', completed = True\<rparr>,
      EditChange (js '' ''), EditSubmit 7, Add 9 (js ''c '')]"
    by (simp add: time_value_def)
  have g: "getItem Map.empty LOCAL_STORAGE_KEY = None" by (simp add: getItem_def)
  have t1: "trim (js ''  '') = []" and t2: "trim (js '' '') = []"
    by (simp_all add: trim_def js_def is_ws_def)
  show ?thesis
    using titles_never_blank[OF g c1 c2, of "js ''  ''" 8
        "initial_app [\<lparr>id_t = 7, title = js ''a'', completed = False\<rparr>]"
        "handleEditChange (js '' '') (initial_app [\<lparr>id_t = 7, title = js ''a'', completed = False\<rparr>])" 7]
      t1 t2
    by (simp add: initial_app_def handleEditChange_def handleDelete_def)
qed

text \<open>
  The members of a loaded list are not checked either: a list with a blank title that
  someone else put into the storage is loaded as it is and written back.
\<close>

lemma foreign_blank_title_loaded:
  \<open>session (Map.empty(LOCAL_STORAGE_KEY \<mapsto> js ''[{"id":1,"title":" ","completed":false}]'')) []
     = Started (initial_app [\<lparr>id_t = 1, title = js '' '', completed = False\<rparr>])
         (Map.empty(LOCAL_STORAGE_KEY \<mapsto> js ''[{"id":1,"title":" ","completed":false}]''))
   \<and> blank (js '' '')\<close>
proof -
  have s: \<open>JSON_stringify [\<lparr>id_t = 1, title = js '' '', completed = False\<rparr>] =
      js ''[{"id":1,"title":" ","completed":false}]''\<close>
    by (simp add: stringify_eval)
  have w: "well_formed [\<lparr>id_t = 1, title = js '' '', completed = False\<rparr>]"
    by (simp add: well_formed_def safe_integer_def)
  have g: \<open>getItem (Map.empty(LOCAL_STORAGE_KEY \<mapsto> js ''[{"id":1,"title":" ","completed":false}]''))
      LOCAL_STORAGE_KEY = Some (JSON_stringify [\<lparr>id_t = 1, title = js '' '', completed = False\<rparr>])\<close>
    by (simp add: getItem_def s)
  have b: "blank (js '' '')" by (simp add: blank_def js_def is_ws_def)
  show ?thesis
    using mount_stored[OF g w] b s
    by (simp add: session_def saveTodos_def setItem_def)
qed

section \<open>Properties of the derived view\<close>

lemma passes_simps:
  "passes All_f = (\<lambda>t. True)" "passes Active = (\<lambda>t. \<not> completed t)"
  "passes Completed = (\<lambda>t. completed t)"
  by (simp_all add: fun_eq_iff passes_def)

lemma filteredTodos_passes: "filteredTodos st = filter (passes (filter_s st)) (todos st)"
  by (cases "filter_s st") (simp_all add: filteredTodos_def passes_simps)

text \<open>
  \<open>filteredTodos\<close> holds exactly the tasks that pass the predicate of the filter, in the
  order of the backing list; \<open>activeCount\<close> and \<open>completedCount\<close> count the positions whose
  task is not completed and completed.
\<close>

lemma derived_view:
  "filteredTodos st = filter (passes (filter_s st)) (todos st)
   \<and> set (filteredTodos st) = {t \<in> set (todos st). passes (filter_s st) t}
   \<and> subseq (filteredTodos st) (todos st)
   \<and> activeCount st = card {k. k < length (todos st) \<and> \<not> completed (todos st ! k)}
   \<and> completedCount st = card {k. k < length (todos st) \<and> completed (todos st ! k)}"
  by (simp add: filteredTodos_passes activeCount_def completedCount_def length_filter_conv_card)

text \<open>
  The scenario: two adds into the empty list, a toggle of the first task's id, filter
  \<open>Active\<close>. With different ids the view shows exactly the second task, and both counts
  are 1.
\<close>

lemma scenario_todos:
  "todos (handleToggle n1 (add (n2, js ''feed cat'') (add (n1, js ''buy milk'') empty_app)))
      = [\<lparr>id_t = n1, title = js ''buy milk'', completed = True\<rparr>,
         \<lparr>id_t = n2, title = js ''feed cat'', completed = (n1 = n2)\<rparr>]"
proof -
  have t1: "trim (js ''buy milk'') = js ''buy milk''" by (simp add: trim_def js_def is_ws_def)
  have t2: "trim (js ''feed cat'') = js ''feed cat''" by (simp add: trim_def js_def is_ws_def)
  have n1: "js ''buy milk'' \<noteq> []" and n2: "js ''feed cat'' \<noteq> []" by (simp_all add: js_def)
  show ?thesis
    using n1 n2
    by (auto simp: handleToggle_def todos_add t1 t2 new_task_def empty_app_def initial_app_def)
qed

lemma scenario_distinct_ids:
  "n1 \<noteq> n2 \<Longrightarrow>
     filteredTodos (setCurrentFilter Active (handleToggle n1
         (add (n2, js ''feed cat'') (add (n1, js ''buy milk'') empty_app))))
       = [\<lparr>id_t = n2, title = js ''feed cat'', completed = False\<rparr>]
     \<and> activeCount (setCurrentFilter Active (handleToggle n1
         (add (n2, js ''feed cat'') (add (n1, js ''buy milk'') empty_app)))) = 1
     \<and> completedCount (setCurrentFilter Active (handleToggle n1
         (add (n2, js ''feed cat'') (add (n1, js ''buy milk'') empty_app)))) = 1"
  by (simp add: filteredTodos_passes activeCount_def completedCount_def scenario_todos
        setCurrentFilter_def passes_def)

text \<open>
  C8. In the scenario the two ids are two readings of \<open>Date.now()\<close>, and nothing keeps them
  apart. When both adds read the same millisecond, the toggle of the first task's id
  completes both tasks: the filtered list is empty, no task is active and two are
  completed, where the specification has the second task, 1 and 1.
\<close>

theorem scenario_same_millisecond:
  "filteredTodos (setCurrentFilter Active (handleToggle 1000
      (add (1000, js ''feed cat'') (add (1000, js ''buy milk'') empty_app)))) = []
   \<and> activeCount (setCurrentFilter Active (handleToggle 1000
      (add (1000, js ''feed cat'') (add (1000, js ''buy milk'') empty_app)))) = 0
   \<and> completedCount (setCurrentFilter Active (handleToggle 1000
      (add (1000, js ''feed cat'') (add (1000, js ''buy milk'') empty_app)))) = 2
   \<and> map id_t (todos (add (1000, js ''feed cat'') (add (1000, js ''buy milk'') empty_app)))
      = [1000, 1000]"
  by (simp add: handler_eval)

section \<open>Marking all\<close>

text \<open>
  C9, as the code has it. \<open>SetAllCompleted(v)\<close> sets the completion flag of every task to
  \<open>v\<close>, so that no task is active after \<open>true\<close> and none is completed after \<open>false\<close>. The
  mark-all control is rendered for a non-empty list only, and is then checked exactly when
  no task is active.
\<close>

theorem markAll_sets_every_task:
  "length (todos (handleMarkAll v st)) = length (todos st)
   \<and> (\<forall>k < length (todos st).
        todos (handleMarkAll v st) ! k = (todos st ! k)\<lparr>completed := v\<rparr>)
   \<and> activeCount (handleMarkAll True st) = 0
   \<and> completedCount (handleMarkAll False st) = 0
   \<and> toggle_all_checked st = (if todos st = [] then None else Some (activeCount st = 0))
   \<and> (todos st \<noteq> [] \<longrightarrow> toggle_all_checked (handleMarkAll True st) = Some True)"
  by (simp add: handleMarkAll_def activeCount_def completedCount_def toggle_all_checked_def o_def)

theorem markAll_sets_every_task_witness:
  "map completed (todos (handleMarkAll True
      (initial_app [\<lparr>id_t = 1, title = js ''a'', completed = False\<rparr>,
                    \<lparr>id_t = 2, title = js ''b'', completed = True\<rparr>]))) = [True, True]
   \<and> toggle_all_checked (handleMarkAll True
      (initial_app [\<lparr>id_t = 1, title = js ''a'', completed = False\<rparr>,
                    \<lparr>id_t = 2, title = js ''b'', completed = True\<rparr>])) = Some True
   \<and> toggle_all_checked
      (initial_app [\<lparr>id_t = 1, title = js ''a'', completed = False\<rparr>,
                    \<lparr>id_t = 2, title = js ''b'', completed = True\<rparr>]) = Some False"
  using markAll_sets_every_task[of True "initial_app [\<lparr>id_t = 1, title = js ''a'', completed = False\<rparr>,
                    \<lparr>id_t = 2, title = js ''b'', completed = True\<rparr>]"]
  by (simp add: initial_app_def handleMarkAll_def activeCount_def)

text \<open>For the empty list no task is active, and the control is not rendered.\<close>

theorem toggle_all_empty_counterexample:
  "activeCount empty_app = 0 \<and> toggle_all_checked empty_app = None
   \<and> toggle_all_checked empty_app \<noteq> Some True"
  by (simp add: activeCount_def toggle_all_checked_def empty_app_def initial_app_def)

section \<open>The frame of a toggle\<close>

text \<open>
  C10. \<open>Toggle\<close> keeps the length and the order of the list, and the id and the title of
  every task; a task with another id is unchanged, a task with the given id changes in its
  completion flag only; the filter, the edit state and the input field are unchanged.
\<close>

theorem handleToggle_frame:
  "length (todos (handleToggle i st)) = length (todos st)
   \<and> map id_t (todos (handleToggle i st)) = map id_t (todos st)
   \<and> map title (todos (handleToggle i st)) = map title (todos st)
   \<and> (\<forall>k < length (todos st).
        id_t (todos st ! k) \<noteq> i \<longrightarrow> todos (handleToggle i st) ! k = todos st ! k)
   \<and> (\<forall>k < length (todos st).
        id_t (todos st ! k) = i \<longrightarrow>
          todos (handleToggle i st) ! k = (todos st ! k)\<lparr>completed := \<not> completed (todos st ! k)\<rparr>)
   \<and> filter_s (handleToggle i st) = filter_s st
   \<and> editingId (handleToggle i st) = editingId st
   \<and> editValue (handleToggle i st) = editValue st
   \<and> newTodo (handleToggle i st) = newTodo st"
  by (simp add: handleToggle_def o_def)

theorem handleToggle_frame_witness:
  "todos (handleToggle 1
      (initial_app [\<lparr>id_t = 1, title = js ''a'', completed = False\<rparr>,
                    \<lparr>id_t = 2, title = js ''b'', completed = False\<rparr>]) ) ! 1
     = \<lparr>id_t = 2, title = js ''b'', completed = False\<rparr>
   \<and> todos (handleToggle 1
      (initial_app [\<lparr>id_t = 1, title = js ''a'', completed = False\<rparr>,
                    \<lparr>id_t = 2, title = js ''b'', completed = False\<rparr>]) ) ! 0
     = \<lparr>id_t = 1, title = js ''a'', completed = True\<rparr>"
  using handleToggle_frame[of 1 "initial_app [\<lparr>id_t = 1, title = js ''a'', completed = False\<rparr>,
                    \<lparr>id_t = 2, title = js ''b'', completed = False\<rparr>]"]
  by (simp add: initial_app_def)

end
